theory Spec2Isabelle
  imports Main
begin

section \<open>Data model of \<open>PermissionsAndroid.js\<close>\<close>

text \<open>
  The Flow type \<open>Rationale\<close> of the source: an object with a \<open>title\<close> and a
  \<open>message\<close>. The optional parameter \<open>rationale?: Rationale\<close> is a
  \<open>Rationale option\<close>; an object is always truthy, so \<open>if (rationale)\<close> is the test
  for \<open>Some\<close>.
\<close>

record Rationale =
  title :: string
  message :: string

text \<open>
  A value a promise is rejected with: the \<open>new Error(msg)\<close> the facade builds itself, or
  any value \<open>'e\<close> of the native side. A native promise may reject with either.
\<close>

datatype 'e thrown = Error string | Native 'e

text \<open>
  The fate of a \<open>Promise<boolean>\<close>: it resolves with a value, rejects with a thrown value,
  or never settles.
\<close>

datatype ('e, 'a) Promise = Resolved 'a | Rejected "'e thrown" | Pending

text \<open>
  The two callbacks handed to \<open>DialogManagerAndroid.showAlert\<close>: the second argument
  (\<open>OnError\<close>) and the third (\<open>OnAction\<close>).
\<close>

datatype callback = OnError | OnAction

text \<open>The calls the facade makes on its two native collaborators.\<close>

datatype call =
    CheckPermission string
  | ShouldShowRequestPermissionRationale string
  | RequestPermission string
  | ShowAlert Rationale

text \<open>
  What is observable of one run, in order: a call on a collaborator, the \<open>await\<close> of the
  rationale check resuming with its value, and the dialog firing one of the two callbacks.
\<close>

datatype event = Call call | Resume bool | Callback callback

text \<open>
  The native modules \<open>Permissions\<close> and \<open>DialogManagerAndroid\<close> are outside the file.
  They are parameters of the model: each operation answers from the history of events
  so far (so a native module may keep state of its own) and from its argument. The three
  operations of \<open>Permissions\<close> answer with the fate of the promise they return; \<open>showAlert\<close>
  answers with the callbacks it fires, in the order it fires them (none: the dialog never
  completes).
\<close>

record 'e collaborators =
  Permissions_checkPermission :: "event list \<Rightarrow> string \<Rightarrow> ('e, bool) Promise"
  Permissions_shouldShowRequestPermissionRationale :: "event list \<Rightarrow> string \<Rightarrow> ('e, bool) Promise"
  Permissions_requestPermission :: "event list \<Rightarrow> string \<Rightarrow> ('e, bool) Promise"
  DialogManagerAndroid_showAlert :: "event list \<Rightarrow> Rationale \<Rightarrow> callback list"

text \<open>
  The instance of the class: its one field \<open>PERMISSIONS\<close>, an object literal, kept as the
  list of its properties in source order. The state of a run is the instance together with
  the trace of events.
\<close>

record PermissionsAndroid =
  PERMISSIONS :: "(string \<times> string) list"

record state =
  facade :: PermissionsAndroid
  trace :: "event list"

section \<open>The class\<close>

definition new_PermissionsAndroid :: PermissionsAndroid where
  "new_PermissionsAndroid = \<lparr>PERMISSIONS = [
      (''READ_CALENDAR'', ''android.permission.READ_CALENDAR''),
      (''WRITE_CALENDAR'', ''android.permission.WRITE_CALENDAR''),
      (''CAMERA'', ''android.permission.CAMERA''),
      (''READ_CONTACTS'', ''android.permission.READ_CONTACTS''),
      (''WRITE_CONTACTS'', ''android.permission.WRITE_CONTACTS''),
      (''GET_ACCOUNTS'', ''android.permission.GET_ACCOUNTS''),
      (''ACCESS_FINE_LOCATION'', ''android.permission.ACCESS_FINE_LOCATION''),
      (''ACCESS_COARSE_LOCATION'', ''android.permission.ACCESS_COARSE_LOCATION''),
      (''RECORD_AUDIO'', ''android.permission.RECORD_AUDIO''),
      (''READ_PHONE_STATE'', ''android.permission.READ_PHONE_STATE''),
      (''CALL_PHONE'', ''android.permission.CALL_PHONE''),
      (''READ_CALL_LOG'', ''android.permission.READ_CALL_LOG''),
      (''WRITE_CALL_LOG'', ''android.permission.WRITE_CALL_LOG''),
      (''ADD_VOICEMAIL'', ''com.android.voicemail.permission.ADD_VOICEMAIL''),
      (''USE_SIP'', ''android.permission.USE_SIP''),
      (''PROCESS_OUTGOING_CALLS'', ''android.permission.PROCESS_OUTGOING_CALLS''),
      (''BODY_SENSORS'', ''android.permission.BODY_SENSORS''),
      (''SEND_SMS'', ''android.permission.SEND_SMS''),
      (''RECEIVE_SMS'', ''android.permission.RECEIVE_SMS''),
      (''READ_SMS'', ''android.permission.READ_SMS''),
      (''RECEIVE_WAP_PUSH'', ''android.permission.RECEIVE_WAP_PUSH''),
      (''RECEIVE_MMS'', ''android.permission.RECEIVE_MMS''),
      (''READ_EXTERNAL_STORAGE'', ''android.permission.READ_EXTERNAL_STORAGE''),
      (''WRITE_EXTERNAL_STORAGE'', ''android.permission.WRITE_EXTERNAL_STORAGE'')]\<rparr>"

text \<open>
  The module's last statement, \<open>PermissionsAndroid = new PermissionsAndroid()\<close>: the
  exported instance, before any event.
\<close>

definition module_exports :: state where
  "module_exports = \<lparr>facade = new_PermissionsAndroid, trace = []\<rparr>"

text \<open>Reading a property of the table: \<open>PermissionsAndroid.PERMISSIONS[key]\<close>.\<close>

definition read_PERMISSIONS :: "state \<Rightarrow> string \<Rightarrow> string option" where
  "read_PERMISSIONS s key = map_of (PERMISSIONS (facade s)) key"

text \<open>Appending to the trace, the one way the model changes the state.\<close>

definition emit :: "event \<Rightarrow> state \<Rightarrow> state" where
  "emit ev s = s\<lparr>trace := trace s @ [ev]\<rparr>"

text \<open>
  \<open>checkPermission(permission)\<close> returns the promise of \<open>Permissions.checkPermission\<close>.
\<close>

definition checkPermission ::
  "'e collaborators \<Rightarrow> string \<Rightarrow> state \<Rightarrow> ('e, bool) Promise \<times> state" where
  "checkPermission N permission s =
     (Permissions_checkPermission N (trace s) permission,
      emit (Call (CheckPermission permission)) s)"

text \<open>
  The \<open>resolve\<close> and \<open>reject\<close> functions of \<open>new Promise\<close>: the first call decides the
  promise, later calls are ignored. \<open>None\<close> is a promise nobody has resolved or rejected
  yet; \<open>resolve\<close> with a promise adopts that promise's fate, also when it never settles.
\<close>

definition settle ::
  "('e, 'a) Promise option \<Rightarrow> ('e, 'a) Promise \<Rightarrow> ('e, 'a) Promise option" where
  "settle st x = (case st of None \<Rightarrow> Some x | Some y \<Rightarrow> Some y)"

definition fate :: "('e, 'a) Promise option \<Rightarrow> ('e, 'a) Promise" where
  "fate st = (case st of None \<Rightarrow> Pending | Some x \<Rightarrow> x)"

text \<open>
  The callbacks of lines 123 and 124, run in the order the dialog fires them:
  \<open>() => reject(new Error('Error showing rationale'))\<close> and
  \<open>() => resolve(Permissions.requestPermission(permission))\<close>. The second one calls
  \<open>Permissions.requestPermission\<close> each time it runs, whatever the promise's state.
\<close>

fun run_callbacks ::
  "'e collaborators \<Rightarrow> string \<Rightarrow> callback list \<Rightarrow>
   ('e, bool) Promise option \<times> state \<Rightarrow> ('e, bool) Promise option \<times> state" where
  "run_callbacks N permission [] (st, s) = (st, s)"
| "run_callbacks N permission (OnError # cbs) (st, s) =
     run_callbacks N permission cbs
       (settle st (Rejected (Error ''Error showing rationale'')), emit (Callback OnError) s)"
| "run_callbacks N permission (OnAction # cbs) (st, s) =
     (let s1 = emit (Callback OnAction) s;
          granted = Permissions_requestPermission N (trace s1) permission
      in run_callbacks N permission cbs
           (settle st granted, emit (Call (RequestPermission permission)) s1))"

text \<open>
  \<open>async requestPermission(permission, rationale)\<close>. A rejected \<open>await\<close> rejects the
  function's promise; an \<open>await\<close> that never settles leaves it pending.
\<close>

definition requestPermission ::
  "'e collaborators \<Rightarrow> string \<Rightarrow> Rationale option \<Rightarrow> state \<Rightarrow> ('e, bool) Promise \<times> state" where
  "requestPermission N permission rationale s =
     (let forward = (\<lambda>s'. (Permissions_requestPermission N (trace s') permission,
                           emit (Call (RequestPermission permission)) s'))
      in case rationale of
           None \<Rightarrow> forward s
         | Some r \<Rightarrow>
             (let s1 = emit (Call (ShouldShowRequestPermissionRationale permission)) s
              in case Permissions_shouldShowRequestPermissionRationale N (trace s) permission of
                   Pending \<Rightarrow> (Pending, s1)
                 | Rejected e \<Rightarrow> (Rejected e, s1)
                 | Resolved shouldShowRationale \<Rightarrow>
                     (let s2 = emit (Resume shouldShowRationale) s1
                      in if shouldShowRationale
                         then (let cbs = DialogManagerAndroid_showAlert N (trace s2) r;
                                   (st, s3) = run_callbacks N permission cbs
                                                (None, emit (Call (ShowAlert r)) s2)
                               in (fate st, s3))
                         else forward s2)))"


section \<open>Runs, traces and example collaborators\<close>

text \<open>
  An application calls the two methods of the exported instance, one call after the other.
  \<open>invoke\<close> is one such call, \<open>run\<close> a sequence of them.
\<close>

datatype invocation =
    Invoke_checkPermission string
  | Invoke_requestPermission string "Rationale option"

fun invoke :: "'e collaborators \<Rightarrow> invocation \<Rightarrow> state \<Rightarrow> ('e, bool) Promise \<times> state" where
  "invoke N (Invoke_checkPermission p) s = checkPermission N p s"
| "invoke N (Invoke_requestPermission p rationale) s = requestPermission N p rationale s"

fun run :: "'e collaborators \<Rightarrow> invocation list \<Rightarrow> state \<Rightarrow> state" where
  "run N [] s = s"
| "run N (i # ops) s = run N ops (snd (invoke N i s))"

text \<open>The calls on collaborators in a trace, and the arguments of its permission requests.\<close>

fun calls :: "event list \<Rightarrow> call list" where
  "calls [] = []"
| "calls (Call c # evs) = c # calls evs"
| "calls (_ # evs) = calls evs"

fun requests :: "event list \<Rightarrow> string list" where
  "requests [] = []"
| "requests (Call (RequestPermission q) # evs) = q # requests evs"
| "requests (_ # evs) = requests evs"

text \<open>
  The events \<open>run_callbacks\<close> adds to the trace: each callback as it fires, and after
  \<open>OnAction\<close> the permission request that its body issues.
\<close>

fun callback_events :: "string \<Rightarrow> callback list \<Rightarrow> event list" where
  "callback_events p [] = []"
| "callback_events p (OnError # cbs) = Callback OnError # callback_events p cbs"
| "callback_events p (OnAction # cbs) =
     Callback OnAction # Call (RequestPermission p) # callback_events p cbs"


text \<open>
  Collaborators that answer the same at every history and argument, for the concrete
  instances below.
\<close>

definition device ::
  "('e, bool) Promise \<Rightarrow> ('e, bool) Promise \<Rightarrow> ('e, bool) Promise \<Rightarrow> callback list \<Rightarrow>
   'e collaborators" where
  "device check should request cbs =
     \<lparr>Permissions_checkPermission = (\<lambda>h p. check),
      Permissions_shouldShowRequestPermissionRationale = (\<lambda>h p. should),
      Permissions_requestPermission = (\<lambda>h p. request),
      DialogManagerAndroid_showAlert = (\<lambda>h r. cbs)\<rparr>"

section \<open>Auxiliary facts\<close>

subsection \<open>The callbacks\<close>

lemma run_callbacks_facade:
  "facade (snd (run_callbacks N p cbs (st, s))) = facade s"
proof (induction cbs arbitrary: st s)
  case Nil
  show ?case by simp
next
  case (Cons cb cbs)
  show ?case by (cases cb) (simp_all add: Cons.IH emit_def Let_def)
qed

lemma run_callbacks_state:
  "snd (run_callbacks N p cbs (st, s)) = s\<lparr>trace := trace s @ callback_events p cbs\<rparr>"
proof (induction cbs arbitrary: st s)
  case Nil
  show ?case by simp
next
  case (Cons cb cbs)
  show ?case by (cases cb) (simp_all add: Cons.IH emit_def Let_def)
qed



lemma run_callbacks_cong:
  assumes "\<forall>h. Permissions_requestPermission N h p = Permissions_requestPermission N' h p"
  shows "run_callbacks N p cbs (st, s) = run_callbacks N' p cbs (st, s)"
proof (induction cbs arbitrary: st s)
  case Nil
  show ?case by simp
next
  case (Cons cb cbs)
  show ?case by (cases cb) (simp_all add: Cons.IH assms Let_def)
qed

lemma callback_events_errors:
  "OnAction \<notin> set cbs \<Longrightarrow> callback_events p cbs = map Callback cbs"
proof (induction cbs)
  case Nil
  show ?case by simp
next
  case (Cons cb cbs)
  then show ?case by (cases cb) simp_all
qed


lemma calls_callback_events:
  "set (calls (callback_events p cbs)) \<subseteq> {RequestPermission p}"
proof (induction cbs)
  case Nil
  show ?case by simp
next
  case (Cons cb cbs)
  then show ?case by (cases cb) auto
qed

lemma requests_callback_events:
  "length (requests (callback_events p cbs)) = length (filter (\<lambda>cb. cb = OnAction) cbs)"
proof (induction cbs)
  case Nil
  show ?case by simp
next
  case (Cons cb cbs)
  then show ?case by (cases cb) simp_all
qed

lemma distinct_one_action:
  assumes "distinct cbs"
  shows "length (filter (\<lambda>cb. cb = OnAction) cbs) \<le> 1"
proof -
  have "length (filter (\<lambda>cb. cb = OnAction) cbs) = card ({cb. cb = OnAction} \<inter> set cbs)"
    using assms by (rule distinct_length_filter)
  also have "\<dots> \<le> card {OnAction}"
    by (rule card_mono) auto
  finally show ?thesis by simp
qed

lemma calls_callbacks: "calls (map Callback cbs) = []"
  by (induction cbs) simp_all


lemma callback_events_split:
  "callback_events p cbs = pre @ Call (RequestPermission q) # post \<Longrightarrow>
   \<exists>cs rest. cbs = cs @ OnAction # rest \<and> pre = callback_events p cs @ [Callback OnAction] \<and>
             post = callback_events p rest \<and> q = p"
proof (induction cbs arbitrary: pre)
  case Nil
  then show ?case by simp
next
  case (Cons cb cbs)
  show ?case
  proof (cases cb)
    case OnError
    with Cons.prems obtain pre' where pre: "pre = Callback OnError # pre'"
      and ce: "callback_events p cbs = pre' @ Call (RequestPermission q) # post"
      by (auto simp: Cons_eq_append_conv)
    from Cons.IH [OF ce] obtain cs rest where
      "cbs = cs @ OnAction # rest" "pre' = callback_events p cs @ [Callback OnAction]"
      "post = callback_events p rest" "q = p"
      by blast
    with pre OnError have "cb # cbs = (OnError # cs) @ OnAction # rest \<and>
        pre = callback_events p (OnError # cs) @ [Callback OnAction] \<and>
        post = callback_events p rest \<and> q = p"
      by simp
    then show ?thesis by blast
  next
    case OnAction
    from Cons.prems OnAction
    consider "pre = [Callback OnAction]" "q = p" "post = callback_events p cbs"
      | pre' where "pre = Callback OnAction # Call (RequestPermission p) # pre'"
          "callback_events p cbs = pre' @ Call (RequestPermission q) # post"
      by (auto simp: Cons_eq_append_conv)
    then show ?thesis
    proof cases
      case 1
      with OnAction have "cb # cbs = [] @ OnAction # cbs \<and>
        pre = callback_events p [] @ [Callback OnAction] \<and>
        post = callback_events p cbs \<and> q = p"
        by simp
      then show ?thesis by blast
    next
      case 2
      from Cons.IH [OF 2(2)] obtain cs rest where
        "cbs = cs @ OnAction # rest" "pre' = callback_events p cs @ [Callback OnAction]"
        "post = callback_events p rest" "q = p"
        by blast
      with 2(1) OnAction have "cb # cbs = (OnAction # cs) @ OnAction # rest \<and>
        pre = callback_events p (OnAction # cs) @ [Callback OnAction] \<and>
        post = callback_events p rest \<and> q = p"
        by simp
      then show ?thesis by blast
    qed
  qed
qed

lemma callback_events_split_once:
  assumes "callback_events p cbs = pre @ Call (RequestPermission q) # post"
    and "distinct cbs"
  shows "\<exists>cs rest. cbs = cs @ OnAction # rest \<and> OnAction \<notin> set cs \<and> OnAction \<notin> set rest \<and>
           pre = map Callback cs @ [Callback OnAction] \<and> post = map Callback rest \<and> q = p"
proof -
  from callback_events_split [OF assms(1)] obtain cs rest where
    cbs: "cbs = cs @ OnAction # rest" and pre: "pre = callback_events p cs @ [Callback OnAction]"
    and post: "post = callback_events p rest" and q: "q = p"
    by blast
  from assms(2) cbs have no: "OnAction \<notin> set cs" "OnAction \<notin> set rest"
    by auto
  with pre post have "pre = map Callback cs @ [Callback OnAction]" "post = map Callback rest"
    by (simp_all add: callback_events_errors)
  with cbs no q show ?thesis by blast
qed


lemma no_call_in_callbacks_snoc: "map Callback cs @ [Callback cb] \<noteq> a @ Call c # b"
proof
  assume "map Callback cs @ [Callback cb] = a @ Call c # b"
  then have "Call c \<in> set (map Callback cs @ [Callback cb])" by simp
  then show False by auto
qed

subsection \<open>The five paths through \<open>requestPermission\<close>\<close>

lemma requestPermission_None:
  "requestPermission N p None s =
     (Permissions_requestPermission N (trace s) p,
      s\<lparr>trace := trace s @ [Call (RequestPermission p)]\<rparr>)"
  by (simp add: requestPermission_def emit_def)

lemma requestPermission_Pending:
  "Permissions_shouldShowRequestPermissionRationale N (trace s) p = Pending \<Longrightarrow>
   requestPermission N p (Some r) s =
     (Pending, s\<lparr>trace := trace s @ [Call (ShouldShowRequestPermissionRationale p)]\<rparr>)"
  by (simp add: requestPermission_def emit_def)

lemma requestPermission_Rejected:
  "Permissions_shouldShowRequestPermissionRationale N (trace s) p = Rejected e \<Longrightarrow>
   requestPermission N p (Some r) s =
     (Rejected e, s\<lparr>trace := trace s @ [Call (ShouldShowRequestPermissionRationale p)]\<rparr>)"
  by (simp add: requestPermission_def emit_def)

lemma requestPermission_False:
  "Permissions_shouldShowRequestPermissionRationale N (trace s) p = Resolved False \<Longrightarrow>
   requestPermission N p (Some r) s =
     (Permissions_requestPermission N
        (trace s @ [Call (ShouldShowRequestPermissionRationale p), Resume False]) p,
      s\<lparr>trace := trace s @ [Call (ShouldShowRequestPermissionRationale p), Resume False,
                            Call (RequestPermission p)]\<rparr>)"
  by (simp add: requestPermission_def emit_def)

lemma requestPermission_True:
  assumes "Permissions_shouldShowRequestPermissionRationale N (trace s) p = Resolved True"
  shows "requestPermission N p (Some r) s =
     (fate (fst (run_callbacks N p
        (DialogManagerAndroid_showAlert N
           (trace s @ [Call (ShouldShowRequestPermissionRationale p), Resume True]) r)
        (None, s\<lparr>trace := trace s @ [Call (ShouldShowRequestPermissionRationale p),
                                      Resume True, Call (ShowAlert r)]\<rparr>))),
      s\<lparr>trace := trace s @ [Call (ShouldShowRequestPermissionRationale p), Resume True,
                            Call (ShowAlert r)] @
               callback_events p (DialogManagerAndroid_showAlert N
                 (trace s @ [Call (ShouldShowRequestPermissionRationale p), Resume True]) r)\<rparr>)"
proof -
  let ?s3 = "s\<lparr>trace := trace s @ [Call (ShouldShowRequestPermissionRationale p),
                                    Resume True, Call (ShowAlert r)]\<rparr>"
  let ?cbs = "DialogManagerAndroid_showAlert N
                (trace s @ [Call (ShouldShowRequestPermissionRationale p), Resume True]) r"
  have "snd (run_callbacks N p ?cbs (None, ?s3)) =
          ?s3\<lparr>trace := trace ?s3 @ callback_events p ?cbs\<rparr>"
    by (rule run_callbacks_state)
  then show ?thesis
    using assms
    by (simp add: requestPermission_def emit_def Let_def split_beta)
qed

lemma requestPermission_True_trace:
  assumes "Permissions_shouldShowRequestPermissionRationale N (trace s) p = Resolved True"
  shows "trace (snd (requestPermission N p (Some r) s)) =
     trace s @ [Call (ShouldShowRequestPermissionRationale p), Resume True, Call (ShowAlert r)] @
       callback_events p (DialogManagerAndroid_showAlert N
         (trace s @ [Call (ShouldShowRequestPermissionRationale p), Resume True]) r)"
  by (simp add: requestPermission_True [OF assms])

lemma requestPermission_True_silent:
  assumes "Permissions_shouldShowRequestPermissionRationale N (trace s) p = Resolved True"
    and "DialogManagerAndroid_showAlert N
           (trace s @ [Call (ShouldShowRequestPermissionRationale p), Resume True]) r = []"
  shows "fst (requestPermission N p (Some r) s) = Pending"
  using assms(2) by (simp add: requestPermission_True [OF assms(1)] fate_def)


lemma requestPermission_facade:
  "facade (snd (requestPermission N p rationale s)) = facade s"
  by (simp add: requestPermission_def Let_def split_beta run_callbacks_facade emit_def
        split: option.split Promise.split)

lemma requestPermission_calls:
  "\<exists>new. trace (snd (requestPermission N p rationale s)) = trace s @ new \<and>
      set (calls new) \<subseteq> {ShouldShowRequestPermissionRationale p, RequestPermission p} \<union>
                         ShowAlert ` set_option rationale"
proof (cases rationale)
  case None
  then show ?thesis by (simp add: requestPermission_None)
next
  case (Some r)
  show ?thesis
  proof (cases "Permissions_shouldShowRequestPermissionRationale N (trace s) p")
    case Pending
    with Some show ?thesis by (simp add: requestPermission_Pending)
  next
    case (Rejected e)
    with Some show ?thesis by (simp add: requestPermission_Rejected)
  next
    case (Resolved b)
    show ?thesis
    proof (cases b)
      case False
      with Resolved Some show ?thesis by (simp add: requestPermission_False)
    next
      case True
      with Resolved Some calls_callback_events [of p] show ?thesis
        by (auto simp: requestPermission_True)
    qed
  qed
qed

lemma requestPermission_cong:
  assumes "\<forall>h. Permissions_shouldShowRequestPermissionRationale N h p =
                Permissions_shouldShowRequestPermissionRationale N' h p"
    and req: "\<forall>h. Permissions_requestPermission N h p = Permissions_requestPermission N' h p"
    and "\<forall>h. \<forall>r \<in> set_option rationale.
           DialogManagerAndroid_showAlert N h r = DialogManagerAndroid_showAlert N' h r"
  shows "requestPermission N p rationale s = requestPermission N' p rationale s"
  using assms run_callbacks_cong [OF req]
  by (cases rationale) (simp_all add: requestPermission_def Let_def split: Promise.split)

lemma requestPermission_trace_cases:
  "\<exists>new. trace (snd (requestPermission N p rationale s)) = trace s @ new \<and>
     (rationale = None \<and> new = [Call (RequestPermission p)] \<or>
      (\<exists>r. rationale = Some r \<and>
         (new = [Call (ShouldShowRequestPermissionRationale p)] \<or>
          new = [Call (ShouldShowRequestPermissionRationale p), Resume False,
                 Call (RequestPermission p)] \<or>
          new = [Call (ShouldShowRequestPermissionRationale p), Resume True,
                 Call (ShowAlert r)] @
                callback_events p (DialogManagerAndroid_showAlert N
                  (trace s @ [Call (ShouldShowRequestPermissionRationale p), Resume True]) r))))"
proof (cases rationale)
  case None
  then show ?thesis by (simp add: requestPermission_None)
next
  case (Some r)
  show ?thesis
  proof (cases "Permissions_shouldShowRequestPermissionRationale N (trace s) p")
    case Pending
    with Some show ?thesis by (simp add: requestPermission_Pending)
  next
    case (Rejected e)
    with Some show ?thesis by (simp add: requestPermission_Rejected)
  next
    case (Resolved b)
    show ?thesis
    proof (cases b)
      case False
      with Resolved Some show ?thesis by (simp add: requestPermission_False)
    next
      case True
      with Resolved Some show ?thesis by (simp add: requestPermission_True_trace)
    qed
  qed
qed

lemma requestPermission_request_shape:
  assumes once: "\<forall>h r. distinct (DialogManagerAndroid_showAlert N h r)"
    and tr: "trace (snd (requestPermission N p rationale s)) =
             trace s @ pre @ Call (RequestPermission q) # post"
  shows "q = p \<and> calls post = [] \<and>
         (case rationale of
            None \<Rightarrow> pre = []
          | Some r \<Rightarrow>
              pre = [Call (ShouldShowRequestPermissionRationale p), Resume False] \<or>
              (\<exists>cs. pre = [Call (ShouldShowRequestPermissionRationale p), Resume True,
                           Call (ShowAlert r)] @ map Callback cs @ [Callback OnAction]))"
proof -
  from requestPermission_trace_cases [of N p rationale s] tr
  consider "rationale = None" "pre @ Call (RequestPermission q) # post = [Call (RequestPermission p)]"
    | r where "rationale = Some r"
        "pre @ Call (RequestPermission q) # post = [Call (ShouldShowRequestPermissionRationale p)]"
    | r where "rationale = Some r"
        "pre @ Call (RequestPermission q) # post =
           [Call (ShouldShowRequestPermissionRationale p), Resume False,
            Call (RequestPermission p)]"
    | r where "rationale = Some r"
        "pre @ Call (RequestPermission q) # post =
           [Call (ShouldShowRequestPermissionRationale p), Resume True, Call (ShowAlert r)] @
           callback_events p (DialogManagerAndroid_showAlert N
             (trace s @ [Call (ShouldShowRequestPermissionRationale p), Resume True]) r)"
    by auto
  then show ?thesis
  proof cases
    case 1
    then show ?thesis by (auto simp: append_eq_Cons_conv)
  next
    case 2
    then show ?thesis by (auto simp: append_eq_Cons_conv)
  next
    case 3
    then show ?thesis by (auto simp: append_eq_Cons_conv)
  next
    case 4
    let ?cbs = "DialogManagerAndroid_showAlert N
                  (trace s @ [Call (ShouldShowRequestPermissionRationale p), Resume True]) r"
    from 4(2) obtain pre' where pre: "pre = [Call (ShouldShowRequestPermissionRationale p),
        Resume True, Call (ShowAlert r)] @ pre'"
      and ce: "callback_events p ?cbs = pre' @ Call (RequestPermission q) # post"
      by (auto simp: append_eq_Cons_conv)
    from once have "distinct ?cbs" by blast
    from callback_events_split_once [OF ce this]
    obtain cs rest where "pre' = map Callback cs @ [Callback OnAction]"
      "post = map Callback rest" "q = p"
      by blast
    with pre 4(1) show ?thesis by (auto simp: calls_callbacks)
  qed
qed

lemma request_shape_ordering:
  assumes "pre = [] \<or> pre = [Call (ShouldShowRequestPermissionRationale p), Resume False] \<or>
           (\<exists>cs. pre = [Call (ShouldShowRequestPermissionRationale p), Resume True,
                        Call (ShowAlert r)] @ map Callback cs @ [Callback OnAction])"
  shows "(\<forall>a x b. pre = a @ Call (ShouldShowRequestPermissionRationale x) # b \<longrightarrow>
                   (\<exists>v. Resume v \<in> set b)) \<and>
         (\<forall>a x b. pre = a @ Call (ShowAlert x) # b \<longrightarrow> (\<exists>cb. Callback cb \<in> set b))"
  using assms
  by (auto simp: Cons_eq_append_conv no_call_in_callbacks_snoc)

lemma requestPermission_one_request:
  assumes once: "\<forall>h r. distinct (DialogManagerAndroid_showAlert N h r)"
    and tr: "trace (snd (requestPermission N p rationale s)) = trace s @ new"
  shows "length (requests new) \<le> 1"
proof -
  from requestPermission_trace_cases [of N p rationale s] tr
  consider "new = [Call (RequestPermission p)]"
    | "new = [Call (ShouldShowRequestPermissionRationale p)]"
    | "new = [Call (ShouldShowRequestPermissionRationale p), Resume False,
              Call (RequestPermission p)]"
    | r where "new = [Call (ShouldShowRequestPermissionRationale p), Resume True,
                      Call (ShowAlert r)] @
           callback_events p (DialogManagerAndroid_showAlert N
             (trace s @ [Call (ShouldShowRequestPermissionRationale p), Resume True]) r)"
    by auto
  then show ?thesis
  proof cases
    case 4
    with once distinct_one_action
      [of "DialogManagerAndroid_showAlert N
             (trace s @ [Call (ShouldShowRequestPermissionRationale p), Resume True]) r"]
    show ?thesis by (simp add: requests_callback_events)
  qed simp_all
qed



subsection \<open>Runs and the table\<close>

lemma invoke_facade: "facade (snd (invoke N i s)) = facade s"
  by (cases i) (simp_all add: checkPermission_def emit_def requestPermission_facade)

lemma run_facade: "facade (run N ops s) = facade s"
  by (induction ops arbitrary: s) (simp_all add: invoke_facade)

lemma table_distinct: "distinct (map fst (PERMISSIONS new_PermissionsAndroid))"
  by (simp add: new_PermissionsAndroid_def)

section \<open>\<open>checkPermission\<close>\<close>

text \<open>
  C5: for every permission string, \<open>checkPermission\<close> has exactly the fate of the promise
  \<open>Permissions.checkPermission\<close> returns for the same string: the boolean it resolves to, or
  the rejection unchanged; the string is forwarded as it is, whatever it is.
\<close>

theorem checkPermission_forwards:
  "fst (checkPermission N p s) = Permissions_checkPermission N (trace s) p \<and>
   trace (snd (checkPermission N p s)) = trace s @ [Call (CheckPermission p)]"
  by (simp add: checkPermission_def emit_def)

text \<open>
  C10: \<open>checkPermission\<close> adds one event to the trace, its call of
  \<open>Permissions.checkPermission\<close>: no dialog, no permission request, no rationale check; the
  instance, and with it every read of the table, is as before.
\<close>

theorem checkPermission_frame:
  "trace (snd (checkPermission N p s)) = trace s @ [Call (CheckPermission p)] \<and>
   facade (snd (checkPermission N p s)) = facade s \<and>
   read_PERMISSIONS (snd (checkPermission N p s)) = read_PERMISSIONS s"
  by (simp add: checkPermission_def emit_def read_PERMISSIONS_def fun_eq_iff)

section \<open>\<open>requestPermission\<close>\<close>

text \<open>
  C3: without a rationale, \<open>requestPermission\<close> has exactly the fate of the promise
  \<open>Permissions.requestPermission\<close> returns for the same string, and that call is the only
  event: no rationale check and no dialog.
\<close>

theorem requestPermission_without_rationale:
  "fst (requestPermission N p None s) = Permissions_requestPermission N (trace s) p \<and>
   trace (snd (requestPermission N p None s)) = trace s @ [Call (RequestPermission p)]"
  by (simp add: requestPermission_None)

text \<open>
  C4: with a rationale, when the rationale check resolves to false, the result is the
  promise \<open>Permissions.requestPermission\<close> returns for the same string, resolved or
  rejected as that promise is, and the dialog is not invoked: the call goes on as the call
  without a rationale does from the state the check has left. Where the provider's promise
  does not depend on the history, the result is the one of the call without a rationale.
\<close>

theorem requestPermission_rationale_not_needed:
  assumes "Permissions_shouldShowRequestPermissionRationale N (trace s) p = Resolved False"
  shows "fst (requestPermission N p (Some r) s) =
           Permissions_requestPermission N
             (trace s @ [Call (ShouldShowRequestPermissionRationale p), Resume False]) p \<and>
         requestPermission N p (Some r) s =
           requestPermission N p None
             (emit (Resume False) (emit (Call (ShouldShowRequestPermissionRationale p)) s)) \<and>
         trace (snd (requestPermission N p (Some r) s)) =
           trace s @ [Call (ShouldShowRequestPermissionRationale p), Resume False,
                      Call (RequestPermission p)] \<and>
         ((\<forall>h h'. Permissions_requestPermission N h p = Permissions_requestPermission N h' p) \<longrightarrow>
            fst (requestPermission N p (Some r) s) = fst (requestPermission N p None s))"
proof -
  have "(\<forall>h h'. Permissions_requestPermission N h p = Permissions_requestPermission N h' p) \<longrightarrow>
          Permissions_requestPermission N
            (trace s @ [Call (ShouldShowRequestPermissionRationale p), Resume False]) p =
          Permissions_requestPermission N (trace s) p"
    by blast
  then show ?thesis
    by (simp add: requestPermission_False [OF assms] requestPermission_None emit_def)
qed

theorem requestPermission_rationale_not_needed_witness:
  "fst (requestPermission (device Pending (Resolved False) (Rejected (Native (3::nat))) [OnError])
     ''android.permission.CAMERA'' (Some \<lparr>title = ''T'', message = ''M''\<rparr>) module_exports) =
     Rejected (Native 3) \<and>
   fst (requestPermission (device Pending (Resolved False) (Rejected (Native (3::nat))) [OnError])
     ''android.permission.CAMERA'' (Some \<lparr>title = ''T'', message = ''M''\<rparr>) module_exports) =
     fst (requestPermission (device Pending (Resolved False) (Rejected (Native (3::nat))) [OnError])
     ''android.permission.CAMERA'' None module_exports) \<and>
   trace (snd (requestPermission
     (device Pending (Resolved False) (Rejected (Native (3::nat))) [OnError])
     ''android.permission.CAMERA'' (Some \<lparr>title = ''T'', message = ''M''\<rparr>) module_exports)) =
     [Call (ShouldShowRequestPermissionRationale ''android.permission.CAMERA''),
      Resume False, Call (RequestPermission ''android.permission.CAMERA'')]"
proof -
  let ?N = "device Pending (Resolved False) (Rejected (Native (3::nat))) [OnError]"
  have check: "Permissions_shouldShowRequestPermissionRationale ?N (trace module_exports)
                 ''android.permission.CAMERA'' = Resolved False"
    by (simp add: device_def)
  have same: "\<forall>h h'. Permissions_requestPermission ?N h ''android.permission.CAMERA'' =
                       Permissions_requestPermission ?N h' ''android.permission.CAMERA''"
    by (simp add: device_def)
  note facts = requestPermission_rationale_not_needed
                 [OF check, of "\<lparr>title = ''T'', message = ''M''\<rparr>"]
  from facts
  have "fst (requestPermission ?N ''android.permission.CAMERA''
               (Some \<lparr>title = ''T'', message = ''M''\<rparr>) module_exports) =
        Permissions_requestPermission ?N
          (trace module_exports @
             [Call (ShouldShowRequestPermissionRationale ''android.permission.CAMERA''),
              Resume False]) ''android.permission.CAMERA''"
    by blast
  then have "fst (requestPermission ?N ''android.permission.CAMERA''
               (Some \<lparr>title = ''T'', message = ''M''\<rparr>) module_exports) = Rejected (Native 3)"
    by (simp add: device_def)
  moreover from facts same
  have "fst (requestPermission ?N ''android.permission.CAMERA''
               (Some \<lparr>title = ''T'', message = ''M''\<rparr>) module_exports) =
        fst (requestPermission ?N ''android.permission.CAMERA'' None module_exports)"
    by blast
  moreover from facts
  have "trace (snd (requestPermission ?N ''android.permission.CAMERA''
                      (Some \<lparr>title = ''T'', message = ''M''\<rparr>) module_exports)) =
        trace module_exports @
          [Call (ShouldShowRequestPermissionRationale ''android.permission.CAMERA''),
           Resume False, Call (RequestPermission ''android.permission.CAMERA'')]"
    by blast
  ultimately show ?thesis
    by (simp add: module_exports_def)
qed







text \<open>
  C6: in every call of \<open>requestPermission\<close>, when the dialog fires each of its callbacks
  at most once, at most one \<open>Permissions.requestPermission\<close> is issued, for the caller's
  string, and no call on a collaborator follows it. What precedes it is: nothing, without
  a rationale; with a rationale, the rationale check and its resumption with false, or the
  rationale check, its resumption with true, the \<open>showAlert\<close> and the callbacks fired so
  far, the last of them the action callback. So a rationale check has resumed, and a
  dialog that was shown has fired a callback, before the request is issued.
\<close>

theorem requestPermission_ordering:
  assumes once: "\<forall>h r. distinct (DialogManagerAndroid_showAlert N h r)"
  shows "\<exists>new. trace (snd (requestPermission N p rationale s)) = trace s @ new \<and>
     length (requests new) \<le> 1 \<and>
     (\<forall>pre q post. new = pre @ Call (RequestPermission q) # post \<longrightarrow>
        q = p \<and> calls post = [] \<and>
        (case rationale of
           None \<Rightarrow> pre = []
         | Some r \<Rightarrow>
             pre = [Call (ShouldShowRequestPermissionRationale p), Resume False] \<or>
             (\<exists>cs. pre = [Call (ShouldShowRequestPermissionRationale p), Resume True,
                          Call (ShowAlert r)] @ map Callback cs @ [Callback OnAction])) \<and>
        (\<forall>a x b. pre = a @ Call (ShouldShowRequestPermissionRationale x) # b \<longrightarrow>
                   (\<exists>v. Resume v \<in> set b)) \<and>
        (\<forall>a x b. pre = a @ Call (ShowAlert x) # b \<longrightarrow> (\<exists>cb. Callback cb \<in> set b)))"
proof -
  from requestPermission_trace_cases [of N p rationale s]
  obtain new where new: "trace (snd (requestPermission N p rationale s)) = trace s @ new"
    by blast
  have one: "length (requests new) \<le> 1"
    using once new by (rule requestPermission_one_request)
  have ord: "q = p \<and> calls post = [] \<and>
        (case rationale of
           None \<Rightarrow> pre = []
         | Some r \<Rightarrow>
             pre = [Call (ShouldShowRequestPermissionRationale p), Resume False] \<or>
             (\<exists>cs. pre = [Call (ShouldShowRequestPermissionRationale p), Resume True,
                          Call (ShowAlert r)] @ map Callback cs @ [Callback OnAction])) \<and>
        (\<forall>a x b. pre = a @ Call (ShouldShowRequestPermissionRationale x) # b \<longrightarrow>
                   (\<exists>v. Resume v \<in> set b)) \<and>
        (\<forall>a x b. pre = a @ Call (ShowAlert x) # b \<longrightarrow> (\<exists>cb. Callback cb \<in> set b))"
    if dec: "new = pre @ Call (RequestPermission q) # post" for pre q post
  proof -
    from new dec have tr: "trace (snd (requestPermission N p rationale s)) =
        trace s @ pre @ Call (RequestPermission q) # post"
      by simp
    note shape = requestPermission_request_shape [OF once tr]
    from shape have "\<exists>r. pre = [] \<or>
        pre = [Call (ShouldShowRequestPermissionRationale p), Resume False] \<or>
        (\<exists>cs. pre = [Call (ShouldShowRequestPermissionRationale p), Resume True,
                     Call (ShowAlert r)] @ map Callback cs @ [Callback OnAction])"
      by (cases rationale) auto
    then obtain r where "pre = [] \<or>
        pre = [Call (ShouldShowRequestPermissionRationale p), Resume False] \<or>
        (\<exists>cs. pre = [Call (ShouldShowRequestPermissionRationale p), Resume True,
                     Call (ShowAlert r)] @ map Callback cs @ [Callback OnAction])"
      by blast
    from request_shape_ordering [OF this] shape show ?thesis by blast
  qed
  from new one ord show ?thesis by blast
qed

theorem requestPermission_ordering_witness:
  "trace (snd (requestPermission
     (device Pending (Resolved True) (Resolved True) [OnAction, OnError] :: nat collaborators)
     ''android.permission.CAMERA'' (Some \<lparr>title = ''T'', message = ''M''\<rparr>) module_exports)) =
     [Call (ShouldShowRequestPermissionRationale ''android.permission.CAMERA''),
      Resume True, Call (ShowAlert \<lparr>title = ''T'', message = ''M''\<rparr>),
      Callback OnAction, Call (RequestPermission ''android.permission.CAMERA''),
      Callback OnError] \<and>
   length (requests (trace (snd (requestPermission
     (device Pending (Resolved True) (Resolved True) [OnAction, OnError] :: nat collaborators)
     ''android.permission.CAMERA'' (Some \<lparr>title = ''T'', message = ''M''\<rparr>) module_exports)))) \<le> 1 \<and>
   calls [Callback OnError] = []"
proof -
  let ?N = "device Pending (Resolved True) (Resolved True) [OnAction, OnError] :: nat collaborators"
  let ?t = "trace (snd (requestPermission ?N ''android.permission.CAMERA''
                     (Some \<lparr>title = ''T'', message = ''M''\<rparr>) module_exports))"
  have once: "\<forall>h r. distinct (DialogManagerAndroid_showAlert ?N h r)"
    by (simp add: device_def)
  from requestPermission_ordering [OF once, of "''android.permission.CAMERA''"
         "Some \<lparr>title = ''T'', message = ''M''\<rparr>" module_exports]
  obtain new where new: "?t = trace module_exports @ new" and one: "length (requests new) \<le> 1"
    and after: "\<forall>pre q post. new = pre @ Call (RequestPermission q) # post \<longrightarrow> calls post = []"
    by blast
  have check: "Permissions_shouldShowRequestPermissionRationale ?N (trace module_exports)
                 ''android.permission.CAMERA'' = Resolved True"
    by (simp add: device_def)
  have t: "?t = [Call (ShouldShowRequestPermissionRationale ''android.permission.CAMERA''),
      Resume True, Call (ShowAlert \<lparr>title = ''T'', message = ''M''\<rparr>),
      Callback OnAction, Call (RequestPermission ''android.permission.CAMERA''),
      Callback OnError]"
    by (simp only: invoke.simps requestPermission_True_trace [OF check])
       (simp add: device_def module_exports_def)
  from new t have "new =
      [Call (ShouldShowRequestPermissionRationale ''android.permission.CAMERA''),
       Resume True, Call (ShowAlert \<lparr>title = ''T'', message = ''M''\<rparr>), Callback OnAction] @
      Call (RequestPermission ''android.permission.CAMERA'') # [Callback OnError]"
    by (simp add: module_exports_def)
  with after have "calls [Callback OnError] = []"
    by blast
  moreover from new one have "length (requests ?t) \<le> 1"
    by (simp add: module_exports_def)
  ultimately show ?thesis using t by simp
qed




text \<open>
  C9: every call that \<open>requestPermission\<close> makes on \<open>Permissions\<close> carries the caller's
  string, and the call on the dialog, if any, the caller's rationale; no other call is
  made. The result and the events depend on the collaborators only through their answers
  for this string and this rationale: collaborators that agree there give the same result.
\<close>

theorem requestPermission_arguments:
  "(\<exists>new. trace (snd (requestPermission N p rationale s)) = trace s @ new \<and>
      set (calls new) \<subseteq> {ShouldShowRequestPermissionRationale p, RequestPermission p} \<union>
                         ShowAlert ` set_option rationale) \<and>
   ((\<forall>h. Permissions_shouldShowRequestPermissionRationale N h p =
          Permissions_shouldShowRequestPermissionRationale N' h p) \<and>
    (\<forall>h. Permissions_requestPermission N h p = Permissions_requestPermission N' h p) \<and>
    (\<forall>h. \<forall>r \<in> set_option rationale.
          DialogManagerAndroid_showAlert N h r = DialogManagerAndroid_showAlert N' h r) \<longrightarrow>
    requestPermission N p rationale s = requestPermission N' p rationale s)"
  using requestPermission_calls [of N p rationale s]
    requestPermission_cong [of N p N' rationale s]
  by blast

theorem requestPermission_arguments_witness:
  "requestPermission (device Pending (Resolved True) (Resolved False) [OnAction] :: nat collaborators)
     ''android.permission.CAMERA'' (Some \<lparr>title = ''T'', message = ''M''\<rparr>) module_exports =
   requestPermission
     ((device (Resolved True) (Resolved True) (Resolved False) [OnAction])
        \<lparr>Permissions_requestPermission :=
           (\<lambda>h q. if q = ''android.permission.CAMERA'' then Resolved False
                   else Rejected (Native 1))\<rparr>)
     ''android.permission.CAMERA'' (Some \<lparr>title = ''T'', message = ''M''\<rparr>) module_exports"
proof -
  let ?N = "device Pending (Resolved True) (Resolved False) [OnAction] :: nat collaborators"
  let ?N' = "(device (Resolved True) (Resolved True) (Resolved False) [OnAction])
        \<lparr>Permissions_requestPermission :=
           (\<lambda>h q. if q = ''android.permission.CAMERA'' then Resolved False
                   else Rejected (Native (1::nat)))\<rparr>"
  have agree:
    "(\<forall>h. Permissions_shouldShowRequestPermissionRationale ?N h ''android.permission.CAMERA'' =
          Permissions_shouldShowRequestPermissionRationale ?N' h ''android.permission.CAMERA'') \<and>
     (\<forall>h. Permissions_requestPermission ?N h ''android.permission.CAMERA'' =
          Permissions_requestPermission ?N' h ''android.permission.CAMERA'') \<and>
     (\<forall>h. \<forall>r \<in> set_option (Some \<lparr>title = ''T'', message = ''M''\<rparr>).
          DialogManagerAndroid_showAlert ?N h r = DialogManagerAndroid_showAlert ?N' h r)"
    by (simp add: device_def)
  from requestPermission_arguments
         [of ?N "''android.permission.CAMERA''" "Some \<lparr>title = ''T'', message = ''M''\<rparr>" module_exports ?N']
  have "requestPermission ?N ''android.permission.CAMERA'' (Some \<lparr>title = ''T'', message = ''M''\<rparr>) module_exports =
        requestPermission ?N' ''android.permission.CAMERA'' (Some \<lparr>title = ''T'', message = ''M''\<rparr>) module_exports"
    using agree by blast
  then show ?thesis .
qed

section \<open>The table of permissions\<close>

text \<open>
  C8: the exported instance has its table before any event: 24 properties with distinct
  keys, \<open>CAMERA\<close> among them with the value \<open>android.permission.CAMERA\<close>. Reading a key
  gives a string exactly when the key is a property of the table, and then the string
  listed for it. No call of the two methods changes the instance: after any sequence
  of calls, with any collaborators, every read gives what it gave at construction.
\<close>

theorem PERMISSIONS_stable:
  "trace module_exports = [] \<and>
   length (PERMISSIONS (facade module_exports)) = 24 \<and>
   read_PERMISSIONS module_exports ''CAMERA'' = Some ''android.permission.CAMERA'' \<and>
   (\<forall>k v. (read_PERMISSIONS (run N ops module_exports) k = Some v) =
           ((k, v) \<in> set (PERMISSIONS new_PermissionsAndroid))) \<and>
   read_PERMISSIONS (run N ops s) = read_PERMISSIONS s"
proof -
  have "read_PERMISSIONS module_exports ''CAMERA'' = Some ''android.permission.CAMERA''"
    by (simp add: read_PERMISSIONS_def module_exports_def new_PermissionsAndroid_def)
  moreover have "length (PERMISSIONS (facade module_exports)) = 24"
    by (simp add: module_exports_def new_PermissionsAndroid_def)
  moreover have "(read_PERMISSIONS (run N ops module_exports) k = Some v) =
           ((k, v) \<in> set (PERMISSIONS new_PermissionsAndroid))" for k v
    using table_distinct
    by (simp add: read_PERMISSIONS_def run_facade module_exports_def)
  moreover have "read_PERMISSIONS (run N ops s) = read_PERMISSIONS s"
    by (simp add: read_PERMISSIONS_def run_facade fun_eq_iff)
  ultimately show ?thesis
    by (simp add: module_exports_def)
qed

end
